theory Spec2Isabelle
  imports Main "HOL-Library.Word"
begin

section \<open>Shared data: messages, errors, outcomes of a stage\<close>

text \<open>
  The queue consumer of \<^verbatim>\<open>queue.go\<close> runs three loops (receive, handle, delete) that
  talk through channels and a shared cancellable context. Each loop is embedded as a
  function of the choices its environment makes for it: which case of a \<^verbatim>\<open>select\<close>
  ran, what an API call returned. A finite list of such choices is a prefix of a run;
  when the list is used up the loop is still blocked in its \<^verbatim>\<open>select\<close>.
\<close>

type_synonym byte = "8 word"

text \<open>\<^verbatim>\<open>sqs.Message\<close>: both fields are \<^verbatim>\<open>*string\<close>; a \<^verbatim>\<open>*sqs.Message\<close> is a
  \<open>message option\<close>, with \<open>None\<close> for the nil pointer.\<close>

record message =
  Body :: "string option"
  ReceiptHandle :: "string option"

text \<open>Error values. \<open>Canceled\<close> is \<^verbatim>\<open>context.Canceled\<close>, the value of \<^verbatim>\<open>ctx.Err()\<close>
  once \<^verbatim>\<open>ctx.Done()\<close> is closed (the context has no deadline); \<open>UnableToUnmarshal\<close>
  is the \<^verbatim>\<open>fmt.Errorf("unable to unmarshal event -> %v", *m.Body)\<close> of handleMessage;
  \<open>HandlerError\<close> carries whatever error the application handler returned.\<close>

datatype 'x error = Canceled | UnableToUnmarshal string | HandlerError 'x

text \<open>The result of running a loop on a finite list of choices. A Go \<^verbatim>\<open>error\<close> result is
  an \<open>'x error option\<close>, \<open>None\<close> for nil.\<close>

datatype 'r outcome = Blocked | Returned 'r | Panicked

text \<open>A two-way \<^verbatim>\<open>select\<close> between \<^verbatim>\<open><-ctx.Done()\<close> and one other case.\<close>

datatype select = Cancelled | Ready

text \<open>The lines the stages print through \<^verbatim>\<open>printf\<close>.\<close>

datatype 'x logline =
    ReceivedMessages nat
  | UnableToDecode
  | UnableToHandle "'x error"
  | DeleteFailed
  | DeletedMessages nat

section \<open>\<^verbatim>\<open>base64.StdEncoding.DecodeString\<close>\<close>

text \<open>
  The standard alphabet with \<^verbatim>\<open>=\<close> padding, not strict. The Go decoder skips
  \<^verbatim>\<open>\r\<close> and \<^verbatim>\<open>\n\<close> wherever they stand, reads four characters at a time, accepts
  padding only to close the last group and nothing after it. Only the error result
  matters to the callers here, so a failed decode is \<open>None\<close>.
\<close>

definition decodeMap :: "char \<Rightarrow> nat option" where
  "decodeMap c =
     (let n = (of_char c :: nat) in
      if 65 \<le> n \<and> n \<le> 90 then Some (n - 65)
      else if 97 \<le> n \<and> n \<le> 122 then Some (n - 71)
      else if 48 \<le> n \<and> n \<le> 57 then Some (n + 4)
      else if n = 43 then Some 62
      else if n = 47 then Some 63
      else None)"

definition quantum :: "nat \<Rightarrow> nat \<Rightarrow> nat \<Rightarrow> nat \<Rightarrow> byte list" where
  "quantum a b c d =
     (let val = a * 262144 + b * 4096 + c * 64 + d
      in [of_nat (val div 65536), of_nat (val div 256), of_nat val])"

fun decodeQuanta :: "string \<Rightarrow> byte list option" where
  "decodeQuanta [] = Some []"
| "decodeQuanta (a # b # c # d # rest) =
     (case (decodeMap a, decodeMap b) of
        (Some x, Some y) \<Rightarrow>
          if c = CHR ''='' then
            (if d = CHR ''='' \<and> rest = [] then Some (take 1 (quantum x y 0 0)) else None)
          else (case decodeMap c of
                  None \<Rightarrow> None
                | Some z \<Rightarrow>
                    if d = CHR ''='' then
                      (if rest = [] then Some (take 2 (quantum x y z 0)) else None)
                    else (case decodeMap d of
                            None \<Rightarrow> None
                          | Some w \<Rightarrow>
                              map_option (\<lambda>out. quantum x y z w @ out) (decodeQuanta rest)))
      | _ \<Rightarrow> None)"
| "decodeQuanta _ = None"

definition DecodeString :: "string \<Rightarrow> byte list option" where
  "DecodeString s = decodeQuanta (filter (\<lambda>c. c \<noteq> CHR 0x0A \<and> c \<noteq> CHR 0x0D) s)"

section \<open>The handle stage\<close>

text \<open>
  What the stage does to the outside: the lines it prints, the byte strings it gives to
  \<^verbatim>\<open>serializer.UnmarshalEvent\<close>, the events it gives to the handler \<^verbatim>\<open>fn\<close>, and the
  messages it sends on the \<^verbatim>\<open>completed\<close> channel, each in order.
\<close>

record ('ev, 'x) handle_state =
  hlog :: "'x logline list"
  unmarshalled :: "byte list list"
  dispatched :: "'ev list"
  completed :: "message option list"

text \<open>
  The serializer is a function \<open>unmarshal\<close> from the record's data to an error or an
  event. The handler is a Go closure and may keep state: its answer is a function
  \<open>fn\<close> of the events it was given before and the event it is given now.
\<close>

definition handleMessage ::
  "(byte list \<Rightarrow> 'x + 'ev) \<Rightarrow> ('ev list \<Rightarrow> 'ev \<Rightarrow> 'x option) \<Rightarrow> message option \<Rightarrow>
   ('ev, 'x) handle_state \<Rightarrow> 'x error option \<times> ('ev, 'x) handle_state" where
  "handleMessage unmarshal fn m s =
     (case m of
        None \<Rightarrow> (None, s)
      | Some msg \<Rightarrow>
          (case Body msg of
             None \<Rightarrow> (None, s)
           | Some body \<Rightarrow>
               (case DecodeString body of
                  None \<Rightarrow> (None, s\<lparr>hlog := hlog s @ [UnableToDecode]\<rparr>)
                | Some data \<Rightarrow>
                    (let s1 = s\<lparr>unmarshalled := unmarshalled s @ [data]\<rparr> in
                     case unmarshal data of
                       Inl err \<Rightarrow> (Some (UnableToUnmarshal body), s1)
                     | Inr event \<Rightarrow>
                         (map_option HandlerError (fn (dispatched s1) event),
                          s1\<lparr>dispatched := dispatched s1 @ [event]\<rparr>)))))"

text \<open>
  One turn of handleLoop's outer \<^verbatim>\<open>select\<close>: either \<^verbatim>\<open><-ctx.Done()\<close> ran, or a
  message \<open>v\<close> came from \<^verbatim>\<open>received\<close>; in that case the second component says which
  case of the inner \<^verbatim>\<open>select\<close> (cancellation, or the send \<^verbatim>\<open>completed <- v\<close>) runs
  if the loop gets that far.
\<close>

datatype hturn = HDone | HRecv "message option" select

fun handleLoop ::
  "(byte list \<Rightarrow> 'x + 'ev) \<Rightarrow> ('ev list \<Rightarrow> 'ev \<Rightarrow> 'x option) \<Rightarrow> hturn list \<Rightarrow>
   ('ev, 'x) handle_state \<Rightarrow> 'x error option outcome \<times> ('ev, 'x) handle_state" where
  "handleLoop unmarshal fn [] s = (Blocked, s)"
| "handleLoop unmarshal fn (HDone # turns) s = (Returned (Some Canceled), s)"
| "handleLoop unmarshal fn (HRecv v send # turns) s =
     (case handleMessage unmarshal fn v s of
        (Some err, s1) \<Rightarrow> (Returned (Some err), s1\<lparr>hlog := hlog s1 @ [UnableToHandle err]\<rparr>)
      | (None, s1) \<Rightarrow>
          (case send of
             Cancelled \<Rightarrow> (Returned (Some Canceled), s1)
           | Ready \<Rightarrow> handleLoop unmarshal fn turns (s1\<lparr>completed := completed s1 @ [v]\<rparr>)))"

definition handle_init :: "('ev, 'x) handle_state" where
  "handle_init = \<lparr>hlog = [], unmarshalled = [], dispatched = [], completed = []\<rparr>"

section \<open>The receive stage\<close>

text \<open>
  What one call of \<^verbatim>\<open>api.ReceiveMessageWithContext\<close> and the rest of that iteration of
  receiveLoop meet. \<open>ReceiveError c\<close>: the call failed, and \<open>c\<close> says whether the
  \<^verbatim>\<open>select\<close> then ran \<^verbatim>\<open><-ctx.Done()\<close> or \<^verbatim>\<open><-time.After(15 * time.Second)\<close>.
  \<open>ReceiveOutput ms cs done\<close>: the call returned the messages \<open>ms\<close>; \<open>cs\<close> gives,
  message by message, the case of the \<^verbatim>\<open>select\<close> around \<^verbatim>\<open>receive <- m\<close> that ran (a
  list that ends early is a send that blocks on the full channel); \<open>done\<close> says
  whether the context was cancelled at the final non-blocking \<^verbatim>\<open>select\<close>.
\<close>

datatype poll = ReceiveError select | ReceiveOutput "message option list" "select list" bool

record 'x receive_state =
  rlog :: "'x logline list"
  rwaits :: "nat list"
  received :: "message option list"

text \<open>The \<^verbatim>\<open>for _, m := range output.Messages\<close> loop; \<open>None\<close> in the first component
  when it ran to its end.\<close>

fun sendMessages ::
  "message option list \<Rightarrow> select list \<Rightarrow> 'x receive_state \<Rightarrow>
   'x error option outcome option \<times> 'x receive_state" where
  "sendMessages [] cs s = (None, s)"
| "sendMessages (m # ms) [] s = (Some Blocked, s)"
| "sendMessages (m # ms) (Cancelled # cs) s = (Some (Returned (Some Canceled)), s)"
| "sendMessages (m # ms) (Ready # cs) s = sendMessages ms cs (s\<lparr>received := received s @ [m]\<rparr>)"

fun receiveLoop ::
  "poll list \<Rightarrow> 'x receive_state \<Rightarrow> 'x error option outcome \<times> 'x receive_state" where
  "receiveLoop [] s = (Blocked, s)"
| "receiveLoop (ReceiveError c # polls) s =
     (case c of
        Cancelled \<Rightarrow> (Returned (Some Canceled), s)
      | Ready \<Rightarrow> receiveLoop polls (s\<lparr>rwaits := rwaits s @ [15]\<rparr>))"
| "receiveLoop (ReceiveOutput ms cs done # polls) s =
     (let s1 = (if length ms > 0 then s\<lparr>rlog := rlog s @ [ReceivedMessages (length ms)]\<rparr> else s)
      in case sendMessages ms cs s1 of
           (Some out, s2) \<Rightarrow> (out, s2)
         | (None, s2) \<Rightarrow>
             if done then (Returned (Some Canceled), s2) else receiveLoop polls s2)"

definition receive_init :: "'x receive_state" where
  "receive_init = \<lparr>rlog = [], rwaits = [], received = []\<rparr>"

section \<open>The delete stage\<close>

text \<open>\<^verbatim>\<open>strconv.Itoa\<close>: the decimal digits of an int, with a sign when negative.\<close>

function itoa_nat :: "nat \<Rightarrow> string" where
  "itoa_nat n =
     (if n < 10 then [''0123456789'' ! n]
      else itoa_nat (n div 10) @ [''0123456789'' ! (n mod 10)])"
  by pat_completeness auto
termination
  by (relation "measure id") auto

declare itoa_nat.simps [simp del]

definition Itoa :: "int \<Rightarrow> string" where
  "Itoa i = (if i < 0 then CHR ''-'' # itoa_nat (nat (- i)) else itoa_nat (nat i))"

text \<open>\<^verbatim>\<open>sqs.DeleteMessageBatchRequestEntry\<close>: its \<^verbatim>\<open>Id\<close> and its \<^verbatim>\<open>ReceiptHandle\<close>.\<close>

record entry =
  Id :: string
  EntryReceiptHandle :: "string option"

text \<open>
  \<open>Entries\<close> is \<^verbatim>\<open>input.Entries\<close>, the pending batch. \<open>requests\<close> lists the entries
  of every \<^verbatim>\<open>api.DeleteMessageBatchWithContext\<close> call made so far, \<open>dwaits\<close> the
  seconds of every retry pause that ran to its end.
\<close>

record 'x delete_state =
  Entries :: "entry list"
  requests :: "entry list list"
  dlog :: "'x logline list"
  dwaits :: "nat list"

text \<open>
  What a call of the delete API meets: it succeeds, or it fails and the \<^verbatim>\<open>select\<close> of
  the pause then runs \<^verbatim>\<open><-ctx.Done()\<close> or \<^verbatim>\<open><-time.After(15 * time.Second)\<close>. The
  environment is a function \<open>api\<close> from the number of calls made before to what the
  next call meets.
\<close>

datatype attempt = Deleted | Failed select

text \<open>The \<^verbatim>\<open>for attempt := 1; attempt <= 3; attempt++\<close> loop of the closure
  deleteMessages together with the reset after it. The \<^verbatim>\<open>return\<close> of the cancelled
  pause leaves the closure, so the reset is not reached on that path.\<close>

function attempts :: "(nat \<Rightarrow> attempt) \<Rightarrow> nat \<Rightarrow> 'x delete_state \<Rightarrow> 'x delete_state" where
  "attempts api attempt s =
     (if attempt \<le> 3 then
        (let s1 = s\<lparr>requests := requests s @ [Entries s]\<rparr> in
         case api (length (requests s)) of
           Failed c \<Rightarrow>
             (let s2 = s1\<lparr>dlog := dlog s1 @ [DeleteFailed]\<rparr> in
              case c of
                Cancelled \<Rightarrow> s2
              | Ready \<Rightarrow> attempts api (attempt + 1) (s2\<lparr>dwaits := dwaits s2 @ [15]\<rparr>))
         | Deleted \<Rightarrow>
             s1\<lparr>dlog := dlog s1 @ [DeletedMessages (length (Entries s1))], Entries := []\<rparr>)
      else s\<lparr>Entries := []\<rparr>)"
  by pat_completeness auto
termination
  by (relation "measure (\<lambda>(api, attempt, s). 4 - attempt)") auto

declare attempts.simps [simp del]

definition deleteMessages :: "(nat \<Rightarrow> attempt) \<Rightarrow> 'x delete_state \<Rightarrow> 'x delete_state" where
  "deleteMessages api s = (if length (Entries s) = 0 then s else attempts api 1 s)"

text \<open>The \<^verbatim>\<open>append\<close> of the \<^verbatim>\<open>completed\<close> case, and the size check that ends every
  iteration of the loop.\<close>

definition appendEntry :: "message \<Rightarrow> 'x delete_state \<Rightarrow> 'x delete_state" where
  "appendEntry v s =
     s\<lparr>Entries := Entries s @
        [\<lparr>Id = Itoa (int (length (Entries s))), EntryReceiptHandle = ReceiptHandle v\<rparr>]\<rparr>"

definition flushIfFull :: "(nat \<Rightarrow> attempt) \<Rightarrow> 'x delete_state \<Rightarrow> 'x delete_state" where
  "flushIfFull api s = (if length (Entries s) = 10 then deleteMessages api s else s)"

text \<open>
  The cases of deleteLoop's \<^verbatim>\<open>select\<close>. The deferred deleteMessages runs when the loop
  returns, and also when \<^verbatim>\<open>v.ReceiptHandle\<close> panics on a nil message.
\<close>

datatype devent = DDone | Tick | Complete "message option"

fun deleteLoop ::
  "(nat \<Rightarrow> attempt) \<Rightarrow> devent list \<Rightarrow> 'x delete_state \<Rightarrow>
   'x error option outcome \<times> 'x delete_state" where
  "deleteLoop api [] s = (Blocked, s)"
| "deleteLoop api (DDone # events) s = (Returned (Some Canceled), deleteMessages api s)"
| "deleteLoop api (Tick # events) s = deleteLoop api events (flushIfFull api (deleteMessages api s))"
| "deleteLoop api (Complete None # events) s = (Panicked, deleteMessages api s)"
| "deleteLoop api (Complete (Some v) # events) s =
     deleteLoop api events (flushIfFull api (appendEntry v s))"

definition delete_init :: "'x delete_state" where
  "delete_init = \<lparr>Entries = [], requests = [], dlog = [], dwaits = []\<rparr>"



section \<open>The subscription\<close>

text \<open>
  \<^verbatim>\<open>errgroup.Group\<close> keeps the first non-nil error a function started with \<^verbatim>\<open>Go\<close>
  returns, and \<^verbatim>\<open>Wait\<close> returns it once all of them have returned. \<open>Wait rs\<close> is that
  result, for the return values \<open>rs\<close> of the group's functions in the order in which
  they returned.
\<close>

definition errOnce :: "'e option \<Rightarrow> 'e option \<Rightarrow> 'e option" where
  "errOnce err r = (case err of None \<Rightarrow> r | Some e \<Rightarrow> Some e)"

definition Wait :: "'e option list \<Rightarrow> 'e option" where
  "Wait rs = foldl errOnce None rs"

text \<open>The values the stages returned, when every one of them has returned.\<close>

fun exits :: "'r outcome list \<Rightarrow> 'r list option" where
  "exits [] = Some []"
| "exits (Returned r # stages) = map_option ((#) r) (exits stages)"
| "exits (_ # stages) = None"

text \<open>
  \<^verbatim>\<open>Subscription.Close\<close> cancels the context and returns \<^verbatim>\<open>s.group.Wait()\<close>. Its argument
  lists what became of the stages after the cancellation, in the order in which they
  ended; the result is \<open>None\<close> when \<^verbatim>\<open>Wait\<close> does not return because a stage has not
  returned, and \<open>Some r\<close> when \<^verbatim>\<open>Close\<close> returns \<open>r\<close>.
\<close>

definition Close :: "'e option outcome list \<Rightarrow> 'e option option" where
  "Close stages = map_option Wait (exits stages)"

section \<open>The replay path\<close>

text \<open>
  \<^verbatim>\<open>handleObject\<close> and \<^verbatim>\<open>Replay\<close> of package \<^verbatim>\<open>s3firehose\<close>. The archive is given by two
  functions: \<open>ListObjectsV2 bucket prefix token\<close> is an error or the keys of
  \<^verbatim>\<open>output.Contents\<close> with \<^verbatim>\<open>output.NextContinuationToken\<close>; \<open>GetObject bucket key\<close>
  is the error of the call or what reading the body gives: the lines \<^verbatim>\<open>bufio.Scanner\<close>
  yields for it, in order, until \<^verbatim>\<open>s.Scan()\<close> returns false, and the value of
  \<^verbatim>\<open>s.Err()\<close> at that point, which is \<open>None\<close> when the body was read to its end and
  an error when reading it failed or a line was too long for the scanner's buffer.
  The state is the list of events given to the handler so far, which is also what the
  handler's answer may depend on.
\<close>

datatype 'x object_error =
    GetObjectFailed 'x
  | Base64Line nat
  | UnmarshalFailed 'x
  | HandlerFailed 'x

datatype 'x replay_error =
    ListObjectsFailed 'x
  | ProcessObjectFailed string "'x object_error"

text \<open>The \<^verbatim>\<open>for line := 1; s.Scan(); line++\<close> loop of handleObject.\<close>

fun scanLines ::
  "(byte list \<Rightarrow> 'x + 'ev) \<Rightarrow> ('ev list \<Rightarrow> 'ev \<Rightarrow> 'x option) \<Rightarrow> nat \<Rightarrow> string list \<Rightarrow>
   'ev list \<Rightarrow> 'x object_error option \<times> 'ev list" where
  "scanLines unmarshal fn line [] evs = (None, evs)"
| "scanLines unmarshal fn line (text # rest) evs =
     (case DecodeString text of
        None \<Rightarrow> (Some (Base64Line line), evs)
      | Some data \<Rightarrow>
          (case unmarshal data of
             Inl err \<Rightarrow> (Some (UnmarshalFailed err), evs)
           | Inr event \<Rightarrow>
               (case fn evs event of
                  Some err \<Rightarrow> (Some (HandlerFailed err), evs @ [event])
                | None \<Rightarrow> scanLines unmarshal fn (line + 1) rest (evs @ [event]))))"

text \<open>handleObject leaves its loop when \<^verbatim>\<open>s.Scan()\<close> returns false and returns nil;
  it does not read \<^verbatim>\<open>s.Err()\<close>.\<close>

definition handleObject ::
  "(string \<Rightarrow> string \<Rightarrow> 'x + string list \<times> 'x option) \<Rightarrow> (byte list \<Rightarrow> 'x + 'ev) \<Rightarrow>
   ('ev list \<Rightarrow> 'ev \<Rightarrow> 'x option) \<Rightarrow> string \<Rightarrow> string \<Rightarrow> 'ev list \<Rightarrow>
   'x object_error option \<times> 'ev list" where
  "handleObject GetObject unmarshal fn bucket key evs =
     (case GetObject bucket key of
        Inl err \<Rightarrow> (Some (GetObjectFailed err), evs)
      | Inr (lines, scanErr) \<Rightarrow> scanLines unmarshal fn 1 lines evs)"

text \<open>The \<^verbatim>\<open>for _, item := range output.Contents\<close> loop of Replay.\<close>

fun handleContents ::
  "(string \<Rightarrow> string \<Rightarrow> 'x + string list \<times> 'x option) \<Rightarrow> (byte list \<Rightarrow> 'x + 'ev) \<Rightarrow>
   ('ev list \<Rightarrow> 'ev \<Rightarrow> 'x option) \<Rightarrow> string \<Rightarrow> string list \<Rightarrow> 'ev list \<Rightarrow>
   'x replay_error option \<times> 'ev list" where
  "handleContents GetObject unmarshal fn bucket [] evs = (None, evs)"
| "handleContents GetObject unmarshal fn bucket (key # keys) evs =
     (case handleObject GetObject unmarshal fn bucket key evs of
        (Some err, evs1) \<Rightarrow> (Some (ProcessObjectFailed key err), evs1)
      | (None, evs1) \<Rightarrow> handleContents GetObject unmarshal fn bucket keys evs1)"

text \<open>
  Replay's outer loop follows continuation tokens for as long as the listing hands them
  out, so it need not end. \<open>Replay n\<close> runs at most \<open>n\<close> iterations of it: the first
  component of the result is \<open>None\<close> when the loop has not returned within \<open>n\<close>
  pages, and \<open>Some r\<close> when Replay returns \<open>r\<close> (\<open>Some None\<close> for nil).
\<close>

fun Replay ::
  "nat \<Rightarrow> (string \<Rightarrow> string \<Rightarrow> string option \<Rightarrow> 'x + string list \<times> string option) \<Rightarrow>
   (string \<Rightarrow> string \<Rightarrow> 'x + string list \<times> 'x option) \<Rightarrow> (byte list \<Rightarrow> 'x + 'ev) \<Rightarrow>
   ('ev list \<Rightarrow> 'ev \<Rightarrow> 'x option) \<Rightarrow> string \<Rightarrow> string \<Rightarrow> string option \<Rightarrow> 'ev list \<Rightarrow>
   'x replay_error option option \<times> 'ev list" where
  "Replay 0 ListObjectsV2 GetObject unmarshal fn bucket prefix token evs = (None, evs)"
| "Replay (Suc n) ListObjectsV2 GetObject unmarshal fn bucket prefix token evs =
     (case ListObjectsV2 bucket prefix token of
        Inl err \<Rightarrow> (Some (Some (ListObjectsFailed err)), evs)
      | Inr (keys, next) \<Rightarrow>
          (case handleContents GetObject unmarshal fn bucket keys evs of
             (Some err, evs1) \<Rightarrow> (Some (Some err), evs1)
           | (None, evs1) \<Rightarrow>
               (case next of
                  None \<Rightarrow> (Some None, evs1)
                | Some t \<Rightarrow>
                    Replay n ListObjectsV2 GetObject unmarshal fn bucket prefix (Some t) evs1)))"

text \<open>
  The same archive laid out flat, to state the order of the replay: every step Replay
  can take, in object-list order and line order within each object (the lines of an
  object being those its scan yields). \<open>Unlisted\<close>
  stands for the pages beyond the first \<open>n\<close>. \<open>dispatchItems\<close> goes through such a
  list one item at a time and stops at the first item that fails; \<open>decoded\<close> is the
  event a line stands for.
\<close>

datatype 'x item = ListError 'x | GetError string 'x | Line string nat string | Unlisted

definition objectItems ::
  "(string \<Rightarrow> string \<Rightarrow> 'x + string list \<times> 'x option) \<Rightarrow> string \<Rightarrow> string \<Rightarrow> 'x item list" where
  "objectItems GetObject bucket key =
     (case GetObject bucket key of
        Inl err \<Rightarrow> [GetError key err]
      | Inr (lines, scanErr) \<Rightarrow> map (\<lambda>(i, text). Line key i text) (enumerate 1 lines))"

fun archiveItems ::
  "nat \<Rightarrow> (string \<Rightarrow> string \<Rightarrow> string option \<Rightarrow> 'x + string list \<times> string option) \<Rightarrow>
   (string \<Rightarrow> string \<Rightarrow> 'x + string list \<times> 'x option) \<Rightarrow> string \<Rightarrow> string \<Rightarrow> string option \<Rightarrow>
   'x item list" where
  "archiveItems 0 ListObjectsV2 GetObject bucket prefix token = [Unlisted]"
| "archiveItems (Suc n) ListObjectsV2 GetObject bucket prefix token =
     (case ListObjectsV2 bucket prefix token of
        Inl err \<Rightarrow> [ListError err]
      | Inr (keys, next) \<Rightarrow>
          concat (map (objectItems GetObject bucket) keys) @
          (case next of
             None \<Rightarrow> []
           | Some t \<Rightarrow> archiveItems n ListObjectsV2 GetObject bucket prefix (Some t)))"

fun dispatchItems ::
  "(byte list \<Rightarrow> 'x + 'ev) \<Rightarrow> ('ev list \<Rightarrow> 'ev \<Rightarrow> 'x option) \<Rightarrow> 'x item list \<Rightarrow> 'ev list \<Rightarrow>
   'x replay_error option option \<times> 'ev list" where
  "dispatchItems unmarshal fn [] evs = (Some None, evs)"
| "dispatchItems unmarshal fn (Unlisted # items) evs = (None, evs)"
| "dispatchItems unmarshal fn (ListError err # items) evs =
     (Some (Some (ListObjectsFailed err)), evs)"
| "dispatchItems unmarshal fn (GetError key err # items) evs =
     (Some (Some (ProcessObjectFailed key (GetObjectFailed err))), evs)"
| "dispatchItems unmarshal fn (Line key line text # items) evs =
     (case DecodeString text of
        None \<Rightarrow> (Some (Some (ProcessObjectFailed key (Base64Line line))), evs)
      | Some data \<Rightarrow>
          (case unmarshal data of
             Inl err \<Rightarrow> (Some (Some (ProcessObjectFailed key (UnmarshalFailed err))), evs)
           | Inr event \<Rightarrow>
               (case fn evs event of
                  Some err \<Rightarrow>
                    (Some (Some (ProcessObjectFailed key (HandlerFailed err))), evs @ [event])
                | None \<Rightarrow> dispatchItems unmarshal fn items (evs @ [event]))))"

fun decoded :: "(byte list \<Rightarrow> 'x + 'ev) \<Rightarrow> 'x item \<Rightarrow> 'ev option" where
  "decoded unmarshal (Line key line text) =
     (case DecodeString text of
        None \<Rightarrow> None
      | Some data \<Rightarrow> (case unmarshal data of Inl err \<Rightarrow> None | Inr event \<Rightarrow> Some event))"
| "decoded unmarshal _ = None"

section \<open>Results on the handle stage and the subscription's result\<close>

lemma Wait_snoc_aux: "foldl errOnce (Some e) rs = Some e"
  by (induction rs) (simp_all add: errOnce_def)

lemma Wait_non_nil: "Some e \<in> set rs \<Longrightarrow> Wait rs \<noteq> None"
proof (induction rs)
  case Nil
  then show ?case by simp
next
  case (Cons r rs)
  show ?case
  proof (cases r)
    case None
    with Cons show ?thesis by (simp add: Wait_def errOnce_def)
  next
    case (Some a)
    then show ?thesis by (simp add: Wait_def errOnce_def Wait_snoc_aux)
  qed
qed

lemma Wait_all_same: "rs \<noteq> [] \<Longrightarrow> \<forall>r \<in> set rs. r = Some e \<Longrightarrow> Wait rs = Some e"
  by (cases rs) (simp_all add: Wait_def errOnce_def Wait_snoc_aux)

lemma exits_member: "exits stages = Some rs \<Longrightarrow> Returned r \<in> set stages \<Longrightarrow> r \<in> set rs"
proof (induction stages arbitrary: rs)
  case Nil
  then show ?case by simp
next
  case (Cons st stages)
  then show ?case by (cases st) auto
qed

lemma Close_non_nil: "Returned (Some e) \<in> set stages \<Longrightarrow> Close stages \<noteq> Some None"
proof
  assume m: "Returned (Some e) \<in> set stages" and c: "Close stages = Some None"
  from c obtain rs where rs: "exits stages = Some rs" and w: "Wait rs = None"
    by (auto simp: Close_def)
  from exits_member [OF rs m] have "Some e \<in> set rs" .
  from Wait_non_nil [OF this] w show False by simp
qed

lemma exits_total:
  "\<forall>st \<in> set stages. \<exists>r. st = Returned r \<Longrightarrow> \<exists>rs. exits stages = Some rs"
proof (induction stages)
  case Nil
  show ?case by simp
next
  case (Cons st stages)
  then obtain r rs where "st = Returned r" and "exits stages = Some rs" by auto
  then show ?case by simp
qed

lemma Close_returns_error:
  assumes "Returned (Some e) \<in> set stages" and "\<forall>st \<in> set stages. \<exists>r. st = Returned r"
  shows "\<exists>e'. Close stages = Some (Some e')"
proof -
  from exits_total [OF assms(2)] obtain rs where rs: "exits stages = Some rs" by blast
  from exits_member [OF rs assms(1)] have "Wait rs \<noteq> None" by (rule Wait_non_nil)
  then obtain e' where "Wait rs = Some e'" by auto
  with rs show ?thesis by (simp add: Close_def)
qed

lemma Close_first_error:
  assumes "\<forall>st \<in> set rest. \<exists>r. st = Returned r"
  shows "Close (Returned (Some e) # rest) = Some (Some e)"
proof -
  from exits_total [OF assms] obtain rs where rs: "exits rest = Some rs" by blast
  then show ?thesis by (simp add: Close_def Wait_def errOnce_def Wait_snoc_aux)
qed

lemma handleLoop_returns:
  "fst (handleLoop unmarshal fn turns s) = Returned r \<Longrightarrow>
     r = Some Canceled \<or>
     (\<exists>send msg body data. HRecv (Some msg) send \<in> set turns \<and> Body msg = Some body \<and>
        DecodeString body = Some data \<and>
        ((\<exists>e. unmarshal data = Inl e \<and> r = Some (UnableToUnmarshal body)) \<or>
         (\<exists>ev h x. unmarshal data = Inr ev \<and> fn h ev = Some x \<and> r = Some (HandlerError x))))"
proof (induction turns arbitrary: s)
  case Nil
  then show ?case by simp
next
  case (Cons t turns)
  show ?case
  proof (cases t)
    case HDone
    with Cons.prems show ?thesis by simp
  next
    case (HRecv v send)
    show ?thesis
    proof (cases "handleMessage unmarshal fn v s")
      case (Pair res s1)
      show ?thesis
      proof (cases res)
        case None
        show ?thesis
        proof (cases send)
          case Cancelled
          with Cons.prems HRecv Pair None show ?thesis by simp
        next
          case Ready
          with Cons.prems HRecv Pair None
          have "fst (handleLoop unmarshal fn turns (s1\<lparr>completed := completed s1 @ [v]\<rparr>)) = Returned r"
            by simp
          from Cons.IH [OF this] have
            "r = Some Canceled \<or>
             (\<exists>send msg body data. HRecv (Some msg) send \<in> set turns \<and> Body msg = Some body \<and>
                DecodeString body = Some data \<and>
                ((\<exists>e. unmarshal data = Inl e \<and> r = Some (UnableToUnmarshal body)) \<or>
                 (\<exists>ev h x. unmarshal data = Inr ev \<and> fn h ev = Some x \<and>
                    r = Some (HandlerError x))))" .
          then show ?thesis
          proof
            assume "r = Some Canceled"
            then show ?thesis by simp
          next
            assume "\<exists>send msg body data. HRecv (Some msg) send \<in> set turns \<and> Body msg = Some body \<and>
                DecodeString body = Some data \<and>
                ((\<exists>e. unmarshal data = Inl e \<and> r = Some (UnableToUnmarshal body)) \<or>
                 (\<exists>ev h x. unmarshal data = Inr ev \<and> fn h ev = Some x \<and>
                    r = Some (HandlerError x)))"
            then obtain send' msg body data where
              a: "HRecv (Some msg) send' \<in> set turns" and
              b: "Body msg = Some body \<and> DecodeString body = Some data \<and>
                ((\<exists>e. unmarshal data = Inl e \<and> r = Some (UnableToUnmarshal body)) \<or>
                 (\<exists>ev h x. unmarshal data = Inr ev \<and> fn h ev = Some x \<and>
                    r = Some (HandlerError x)))"
              by blast
            from a have "HRecv (Some msg) send' \<in> set (t # turns)" by simp
            with b show ?thesis by blast
          qed
        qed
      next
        case (Some err)
        with Cons.prems HRecv Pair have r: "r = Some err" by simp
        from Pair Some obtain msg body data where
          v: "v = Some msg" and b: "Body msg = Some body" and d: "DecodeString body = Some data"
          by (auto simp: handleMessage_def split: option.splits)
        from Pair Some v b d have
          "(\<exists>e. unmarshal data = Inl e \<and> err = UnableToUnmarshal body) \<or>
           (\<exists>ev h x. unmarshal data = Inr ev \<and> fn h ev = Some x \<and> err = HandlerError x)"
          by (auto simp: handleMessage_def Let_def split: sum.splits)
        with r v b d HRecv show ?thesis by fastforce
      qed
    qed
  qed
qed

section \<open>What the receive and delete stages return\<close>

lemma sendMessages_returns:
  "sendMessages ms cs s = (Some (Returned r), s') \<Longrightarrow> r = Some Canceled"
  by (induction ms cs s rule: sendMessages.induct) auto

lemma sendMessages_no_panic: "fst (sendMessages ms cs s) \<noteq> Some Panicked"
  by (induction ms cs s rule: sendMessages.induct) auto

lemma receiveLoop_returns:
  "fst (receiveLoop polls s) = Returned r \<Longrightarrow> r = Some Canceled"
proof (induction polls arbitrary: s)
  case Nil
  then show ?case by simp
next
  case (Cons p polls)
  show ?case
  proof (cases p)
    case (ReceiveError c)
    with Cons show ?thesis by (cases c) auto
  next
    case (ReceiveOutput ms cs fin)
    define s1 where "s1 = (if length ms > 0 then s\<lparr>rlog := rlog s @ [ReceivedMessages (length ms)]\<rparr> else s)"
    show ?thesis
    proof (cases "sendMessages ms cs s1")
      case (Pair out s2)
      show ?thesis
      proof (cases out)
        case None
        with Cons.prems ReceiveOutput Pair s1_def
        have "fin \<or> fst (receiveLoop polls s2) = Returned r"
          by (auto simp: Let_def split: if_splits)
        moreover have "fin \<Longrightarrow> r = Some Canceled"
          using Cons.prems ReceiveOutput Pair None s1_def by (auto simp: Let_def split: if_splits)
        ultimately show ?thesis using Cons.IH by blast
      next
        case (Some out')
        with Cons.prems ReceiveOutput Pair s1_def have "out' = Returned r"
          by (auto simp: Let_def split: if_splits)
        with Pair Some sendMessages_returns show ?thesis by blast
      qed
    qed
  qed
qed

lemma receiveLoop_retries:
  "receiveLoop (replicate n (ReceiveError Ready) @ polls) s =
     receiveLoop polls (s\<lparr>rwaits := rwaits s @ replicate n 15\<rparr>)"
proof (induction n arbitrary: s)
  case 0
  show ?case by simp
next
  case (Suc n)
  show ?case by (simp add: Suc)
qed

lemma deleteLoop_returns:
  "fst (deleteLoop api events s) = Returned r \<Longrightarrow> r = Some Canceled"
  by (induction api events s rule: deleteLoop.induct) auto

lemma exits_all_same:
  "\<forall>st \<in> set stages. st = Returned r \<Longrightarrow> exits stages = Some (replicate (length stages) r)"
  by (induction stages) auto

lemma exits_head: "exits (st # stages) = Some rs \<Longrightarrow> \<exists>r. st = Returned r"
  by (cases st) auto

lemma Close_of_failing_stages:
  assumes "stages \<noteq> []" and "\<forall>st \<in> set stages. \<forall>r. st = Returned r \<longrightarrow> r \<noteq> None"
  shows "Close stages \<noteq> Some None"
proof
  assume c: "Close stages = Some None"
  from assms(1) obtain st rest where st: "stages = st # rest" by (cases stages) auto
  from c obtain rs where rs: "exits stages = Some rs" by (auto simp: Close_def)
  with st exits_head obtain r where r: "st = Returned r" by blast
  with st assms(2) obtain e where "r = Some e" by auto
  with r st have "Returned (Some e) \<in> set stages" by simp
  from Close_non_nil [OF this] c show False by simp
qed

section \<open>Results on the delete stage\<close>









lemma deleteMessages_empty: "Entries s = [] \<Longrightarrow> deleteMessages api s = s"
  by (simp add: deleteMessages_def)










section \<open>Results on the replay path\<close>

lemma dispatch_lines:
  "dispatchItems unmarshal fn (map (\<lambda>(i, t). Line key i t) (enumerate line ls) @ rest) evs =
     (case scanLines unmarshal fn line ls evs of
        (Some err, evs1) \<Rightarrow> (Some (Some (ProcessObjectFailed key err)), evs1)
      | (None, evs1) \<Rightarrow> dispatchItems unmarshal fn rest evs1)"
proof (induction ls arbitrary: line evs)
  case Nil
  show ?case by simp
next
  case (Cons l ls)
  show ?case
    using Cons.IH [of "Suc line"]
    by (simp split: option.splits sum.splits)
qed

lemma dispatch_object:
  "dispatchItems unmarshal fn (objectItems GetObject bucket key @ rest) evs =
     (case handleObject GetObject unmarshal fn bucket key evs of
        (Some err, evs1) \<Rightarrow> (Some (Some (ProcessObjectFailed key err)), evs1)
      | (None, evs1) \<Rightarrow> dispatchItems unmarshal fn rest evs1)"
  using dispatch_lines [of unmarshal fn key 1 _ rest evs]
  by (simp add: objectItems_def handleObject_def split: sum.splits prod.splits)

lemma dispatch_contents:
  "dispatchItems unmarshal fn (concat (map (objectItems GetObject bucket) keys) @ rest) evs =
     (case handleContents GetObject unmarshal fn bucket keys evs of
        (Some err, evs1) \<Rightarrow> (Some (Some err), evs1)
      | (None, evs1) \<Rightarrow> dispatchItems unmarshal fn rest evs1)"
proof (induction keys arbitrary: evs)
  case Nil
  show ?case by simp
next
  case (Cons key keys)
  show ?case
    by (simp add: dispatch_object Cons.IH split: prod.splits option.splits)
qed

lemma Replay_dispatch:
  "Replay n ListObjectsV2 GetObject unmarshal fn bucket prefix token evs =
     dispatchItems unmarshal fn (archiveItems n ListObjectsV2 GetObject bucket prefix token) evs"
proof (induction n arbitrary: token evs)
  case 0
  show ?case by simp
next
  case (Suc n)
  show ?case
  proof (cases "ListObjectsV2 bucket prefix token")
    case (Inl err)
    then show ?thesis by simp
  next
    case (Inr page)
    obtain keys nxt where page: "page = (keys, nxt)" by (cases page)
    show ?thesis
    proof (cases nxt)
      case None
      with Inr page show ?thesis
        using dispatch_contents [of unmarshal fn GetObject bucket keys "[]" evs]
        by (simp split: prod.splits option.splits)
    next
      case (Some t)
      with Inr page show ?thesis
        using dispatch_contents [of unmarshal fn GetObject bucket keys
            "archiveItems n ListObjectsV2 GetObject bucket prefix (Some t)" evs]
        by (simp add: Suc.IH split: prod.splits option.splits)
    qed
  qed
qed

lemma dispatch_good:
  "list_all2 (\<lambda>it ev. decoded unmarshal it = Some ev) good events \<Longrightarrow>
   (\<forall>i < length events. fn (evs @ take i events) (events ! i) = None) \<Longrightarrow>
     dispatchItems unmarshal fn (good @ rest) evs = dispatchItems unmarshal fn rest (evs @ events)"
proof (induction good events arbitrary: evs rule: list_all2_induct)
  case Nil
  show ?case by simp
next
  case (Cons it good ev events)
  from Cons.hyps(1) obtain key line t data where
    it: "it = Line key line t" and d: "DecodeString t = Some data" and u: "unmarshal data = Inr ev"
    by (cases it) (auto split: option.splits sum.splits)
  from Cons.prems have h: "fn evs ev = None" by fastforce
  have "\<forall>i < length events. fn ((evs @ [ev]) @ take i events) (events ! i) = None"
  proof (intro allI impI)
    fix i assume "i < length events"
    with Cons.prems have "fn (evs @ take (Suc i) (ev # events)) ((ev # events) ! Suc i) = None"
      by (metis Suc_less_eq length_Cons)
    then show "fn ((evs @ [ev]) @ take i events) (events ! i) = None" by simp
  qed
  from Cons.IH [OF this] it d u h show ?case by simp
qed

lemma dispatch_bad:
  "bad \<noteq> Unlisted \<Longrightarrow>
   decoded unmarshal bad = None \<or> (\<exists>ev. decoded unmarshal bad = Some ev \<and> fn evs ev \<noteq> None) \<Longrightarrow>
     (\<exists>err. fst (dispatchItems unmarshal fn (bad # rest) evs) = Some (Some err)) \<and>
     snd (dispatchItems unmarshal fn (bad # rest) evs) =
       evs @ (case decoded unmarshal bad of Some ev \<Rightarrow> [ev] | None \<Rightarrow> [])"
  by (cases bad) (auto split: option.splits sum.splits)

lemma Replay_fuel:
  "Replay n ListObjectsV2 GetObject unmarshal fn bucket prefix token evs = (Some r, evs1) \<Longrightarrow>
     Replay (n + k) ListObjectsV2 GetObject unmarshal fn bucket prefix token evs = (Some r, evs1)"
proof (induction n arbitrary: token evs)
  case 0
  then show ?case by simp
next
  case (Suc n)
  show ?case
  proof (cases "ListObjectsV2 bucket prefix token")
    case (Inl err)
    with Suc.prems show ?thesis by simp
  next
    case (Inr page)
    obtain keys nxt where page: "page = (keys, nxt)" by (cases page)
    obtain res evs2 where hc: "handleContents GetObject unmarshal fn bucket keys evs = (res, evs2)"
      by (cases "handleContents GetObject unmarshal fn bucket keys evs")
    show ?thesis
    proof (cases res)
      case (Some err)
      with Suc.prems Inr page hc show ?thesis by auto
    next
      case None
      show ?thesis
      proof (cases nxt)
        case nn: None
        with Suc.prems Inr page hc None show ?thesis by simp
      next
        case (Some t)
        with Suc.prems Inr page hc None have
          "Replay n ListObjectsV2 GetObject unmarshal fn bucket prefix (Some t) evs2 = (Some r, evs1)"
          by simp
        from Suc.IH [OF this] Inr page hc None Some show ?thesis by simp
      qed
    qed
  qed
qed

text \<open>
  C1 says that a message whose body fails base64 decoding never reaches the completed
  channel. handleMessage returns nil for such a body, so handleLoop takes it for a
  handled message and sends it on: the body \<^verbatim>\<open>!!!\<close> does not decode, and the message
  is on the completed channel after its turn.
\<close>

theorem bad_base64_is_forwarded_counterexample:
  "DecodeString ''!!!'' = None \<and>
   handleLoop (\<lambda>d. Inr d) (\<lambda>h e. None)
      [HRecv (Some \<lparr>Body = Some ''!!!'', ReceiptHandle = Some ''rh-1''\<rparr>) Ready]
      (handle_init :: (byte list, string) handle_state) =
     (Blocked, handle_init\<lparr>hlog := [UnableToDecode],
        completed := [Some \<lparr>Body = Some ''!!!'', ReceiptHandle = Some ''rh-1''\<rparr>]\<rparr>)"
  by (simp add: DecodeString_def decodeMap_def handleMessage_def handle_init_def)

text \<open>
  C1, amended. For every message whose body fails base64 decoding, handleMessage prints
  the decode failure and returns nil without calling the serializer or the handler;
  handleLoop returns no error for it and, as for any handled message, sends it on the
  completed channel and goes on with the next turn (or returns the cancellation error
  when the context is cancelled at that send).
\<close>

theorem bad_base64_is_logged_and_acknowledged:
  "Body msg = Some body \<and> DecodeString body = None \<longrightarrow>
     handleMessage unmarshal fn (Some msg) s = (None, s\<lparr>hlog := hlog s @ [UnableToDecode]\<rparr>) \<and>
     handleLoop unmarshal fn (HRecv (Some msg) Ready # turns) s =
       handleLoop unmarshal fn turns
         (s\<lparr>hlog := hlog s @ [UnableToDecode], completed := completed s @ [Some msg]\<rparr>) \<and>
     handleLoop unmarshal fn (HRecv (Some msg) Cancelled # turns) s =
       (Returned (Some Canceled), s\<lparr>hlog := hlog s @ [UnableToDecode]\<rparr>)"
  by (auto simp: handleMessage_def)

theorem bad_base64_is_logged_and_acknowledged_witness:
  "Body \<lparr>Body = Some ''!!!'', ReceiptHandle = Some ''rh-1''\<rparr> = Some ''!!!'' \<and>
   DecodeString ''!!!'' = None \<and>
   handleLoop (\<lambda>d. Inr d) (\<lambda>h e. Some ''boom'')
      [HRecv (Some \<lparr>Body = Some ''!!!'', ReceiptHandle = Some ''rh-1''\<rparr>) Ready, HDone]
      (handle_init :: (byte list, string) handle_state) =
     (Returned (Some Canceled), handle_init\<lparr>hlog := [UnableToDecode],
        completed := [Some \<lparr>Body = Some ''!!!'', ReceiptHandle = Some ''rh-1''\<rparr>]\<rparr>)"
proof -
  have d: "DecodeString ''!!!'' = None"
    by (simp add: DecodeString_def decodeMap_def)
  show ?thesis
    using d bad_base64_is_logged_and_acknowledged
      [of "\<lparr>Body = Some ''!!!'', ReceiptHandle = Some ''rh-1''\<rparr>" "''!!!''" "\<lambda>d. Inr d"
          "\<lambda>h e. Some ''boom''" "handle_init :: (byte list, string) handle_state" "[HDone]"]
    by (simp add: handle_init_def)
qed

text \<open>
  C2 says that \<^verbatim>\<open>Close\<close> returns nil when the three stages end only because of the
  cancellation it asked for. Each stage then returns \<^verbatim>\<open>ctx.Err()\<close>, which is the
  non-nil \<^verbatim>\<open>context.Canceled\<close>, and the group hands the first such error to \<^verbatim>\<open>Close\<close>.
\<close>

theorem close_returns_cancellation_counterexample:
  "Close [fst (receiveLoop [ReceiveError Cancelled] (receive_init :: string receive_state)),
          fst (handleLoop (\<lambda>d. Inr d) (\<lambda>h e. None) [HDone]
                 (handle_init :: (byte list, string) handle_state)),
          fst (deleteLoop (\<lambda>k. Deleted) [DDone] (delete_init :: string delete_state))] =
     Some (Some Canceled)"
  by (simp add: Close_def Wait_def errOnce_def deleteMessages_def delete_init_def)

text \<open>
  C2, amended. Whatever the three stages meet and in whatever order they end,
  \<^verbatim>\<open>Close\<close> never returns nil; when all of them end because of the cancellation,
  \<^verbatim>\<open>Close\<close> returns the cancellation error \<^verbatim>\<open>context.Canceled\<close>.
\<close>

theorem close_returns_cancellation:
  "stages \<noteq> [] \<and>
   (\<forall>st \<in> set stages. st = fst (receiveLoop polls rs) \<or>
        st = fst (handleLoop unmarshal fn turns hs) \<or> st = fst (deleteLoop api events ds)) \<longrightarrow>
     Close stages \<noteq> Some None \<and>
     ((\<forall>st \<in> set stages. st = Returned (Some Canceled)) \<longrightarrow> Close stages = Some (Some Canceled))"
proof (intro impI conjI)
  assume a: "stages \<noteq> [] \<and>
   (\<forall>st \<in> set stages. st = fst (receiveLoop polls rs) \<or>
        st = fst (handleLoop unmarshal fn turns hs) \<or> st = fst (deleteLoop api events ds))"
  have "\<forall>st \<in> set stages. \<forall>r. st = Returned r \<longrightarrow> r \<noteq> None"
  proof (intro ballI allI impI)
    fix st r assume st: "st \<in> set stages" and r: "st = Returned r"
    from a st consider "st = fst (receiveLoop polls rs)"
      | "st = fst (handleLoop unmarshal fn turns hs)" | "st = fst (deleteLoop api events ds)"
      by blast
    then show "r \<noteq> None"
    proof cases
      case 1
      with r receiveLoop_returns [of polls rs r] show ?thesis by simp
    next
      case 2
      with r handleLoop_returns [of unmarshal fn turns hs r] show ?thesis by auto
    next
      case 3
      with r deleteLoop_returns [of api events ds r] show ?thesis by simp
    qed
  qed
  with a show "Close stages \<noteq> Some None" by (simp add: Close_of_failing_stages)
  show "Close stages = Some (Some Canceled)" if c: "\<forall>st \<in> set stages. st = Returned (Some Canceled)"
  proof -
    from a have "replicate (length stages) (Some (Canceled :: 'a error)) \<noteq> []" by simp
    moreover have "\<forall>r \<in> set (replicate (length stages) (Some (Canceled :: 'a error))). r = Some Canceled"
      by simp
    ultimately have "Wait (replicate (length stages) (Some (Canceled :: 'a error))) = Some Canceled"
      by (rule Wait_all_same)
    with exits_all_same [OF c] show ?thesis by (simp add: Close_def)
  qed
qed

theorem close_returns_cancellation_witness:
  "Close [fst (handleLoop (\<lambda>d. Inr d) (\<lambda>h e. None) [HDone]
                 (handle_init :: (byte list, string) handle_state)),
          fst (deleteLoop (\<lambda>k. Deleted) [DDone] (delete_init :: string delete_state)),
          fst (receiveLoop [ReceiveError Cancelled] (receive_init :: string receive_state))] \<noteq>
     Some None \<and>
   Close [fst (handleLoop (\<lambda>d. Inr d) (\<lambda>h e. None) [HDone]
                 (handle_init :: (byte list, string) handle_state)),
          fst (deleteLoop (\<lambda>k. Deleted) [DDone] (delete_init :: string delete_state)),
          fst (receiveLoop [ReceiveError Cancelled] (receive_init :: string receive_state))] =
     Some (Some Canceled)"
  using close_returns_cancellation
    [of "[fst (handleLoop (\<lambda>d. Inr d) (\<lambda>h e. None) [HDone]
                 (handle_init :: (byte list, string) handle_state)),
          fst (deleteLoop (\<lambda>k. Deleted) [DDone] (delete_init :: string delete_state)),
          fst (receiveLoop [ReceiveError Cancelled] (receive_init :: string receive_state))]"
        "[ReceiveError Cancelled]" receive_init "\<lambda>d. Inr d" "\<lambda>h e. None" "[HDone]" handle_init
        "\<lambda>k. Deleted" "[DDone]" delete_init]
  by simp

text \<open>
  C7. A message whose decoded body the serializer rejects, and a message on which the
  handler returns an error, make handleLoop return a non-nil error at once: the result
  and the state do not depend on the turns that follow, so no further message is
  processed. With that result among the stages' results \<^verbatim>\<open>Close\<close> cannot return
  nil; once all stages have returned it returns a non-nil error, and that error is
  handleLoop's own when handleLoop was the first stage to return. Whenever handleLoop
  returns, the result is either the cancellation error or one of these two errors,
  raised by a message it received.
\<close>

theorem handle_escalation:
  "(Body msg = Some body \<and> DecodeString body = Some data \<longrightarrow>
      (\<forall>e. unmarshal data = Inl e \<longrightarrow>
         handleLoop unmarshal fn (HRecv (Some msg) send # turns) s =
           (Returned (Some (UnableToUnmarshal body)),
            s\<lparr>unmarshalled := unmarshalled s @ [data],
              hlog := hlog s @ [UnableToHandle (UnableToUnmarshal body)]\<rparr>)) \<and>
      (\<forall>ev x. unmarshal data = Inr ev \<and> fn (dispatched s) ev = Some x \<longrightarrow>
         handleLoop unmarshal fn (HRecv (Some msg) send # turns) s =
           (Returned (Some (HandlerError x)),
            s\<lparr>unmarshalled := unmarshalled s @ [data],
              dispatched := dispatched s @ [ev],
              hlog := hlog s @ [UnableToHandle (HandlerError x)]\<rparr>))) \<and>
   (\<forall>r. fst (handleLoop unmarshal fn ts s0) = Returned r \<longrightarrow>
      r \<noteq> None \<and>
      (\<forall>stages. Returned r \<in> set stages \<longrightarrow>
         Close stages \<noteq> Some None \<and>
         ((\<forall>st \<in> set stages. \<exists>r'. st = Returned r') \<longrightarrow> (\<exists>e. Close stages = Some (Some e)))) \<and>
      (\<forall>rest. (\<forall>st \<in> set rest. \<exists>r'. st = Returned r') \<longrightarrow> Close (Returned r # rest) = Some r) \<and>
      (r = Some Canceled \<or>
       (\<exists>send msg body data. HRecv (Some msg) send \<in> set ts \<and> Body msg = Some body \<and>
          DecodeString body = Some data \<and>
          ((\<exists>e. unmarshal data = Inl e \<and> r = Some (UnableToUnmarshal body)) \<or>
           (\<exists>ev h x. unmarshal data = Inr ev \<and> fn h ev = Some x \<and>
              r = Some (HandlerError x))))))"
proof (intro conjI impI allI)
  fix e assume "Body msg = Some body \<and> DecodeString body = Some data" "unmarshal data = Inl e"
  then show "handleLoop unmarshal fn (HRecv (Some msg) send # turns) s =
           (Returned (Some (UnableToUnmarshal body)),
            s\<lparr>unmarshalled := unmarshalled s @ [data],
              hlog := hlog s @ [UnableToHandle (UnableToUnmarshal body)]\<rparr>)"
    by (simp add: handleMessage_def)
next
  fix ev x
  assume "Body msg = Some body \<and> DecodeString body = Some data"
    "unmarshal data = Inr ev \<and> fn (dispatched s) ev = Some x"
  then show "handleLoop unmarshal fn (HRecv (Some msg) send # turns) s =
           (Returned (Some (HandlerError x)),
            s\<lparr>unmarshalled := unmarshalled s @ [data],
              dispatched := dispatched s @ [ev],
              hlog := hlog s @ [UnableToHandle (HandlerError x)]\<rparr>)"
    by (simp add: handleMessage_def)
next
  fix r assume r: "fst (handleLoop unmarshal fn ts s0) = Returned r"
  from handleLoop_returns [OF r] show "r \<noteq> None" by auto
  then obtain e where e: "r = Some e" by auto
  show "Close stages \<noteq> Some None" if "Returned r \<in> set stages" for stages
    using that e Close_non_nil by fastforce
  show "\<exists>e'. Close stages = Some (Some e')"
    if "Returned r \<in> set stages" and "\<forall>st \<in> set stages. \<exists>r'. st = Returned r'" for stages
    using that e Close_returns_error [of e stages] by simp
  show "Close (Returned r # rest) = Some r" if "\<forall>st \<in> set rest. \<exists>r'. st = Returned r'" for rest
    using that e Close_first_error [of rest e] by simp
  from handleLoop_returns [OF r]
  show "r = Some Canceled \<or>
       (\<exists>send msg body data. HRecv (Some msg) send \<in> set ts \<and> Body msg = Some body \<and>
          DecodeString body = Some data \<and>
          ((\<exists>e. unmarshal data = Inl e \<and> r = Some (UnableToUnmarshal body)) \<or>
           (\<exists>ev h x. unmarshal data = Inr ev \<and> fn h ev = Some x \<and>
              r = Some (HandlerError x))))" .
qed

theorem handle_escalation_witness:
  "handleLoop (\<lambda>d. Inl ''schema'') (\<lambda>h e. None)
      [HRecv (Some \<lparr>Body = Some ''YQ=='', ReceiptHandle = Some ''rh-1''\<rparr>) Ready,
       HRecv (Some \<lparr>Body = Some ''Yg=='', ReceiptHandle = Some ''rh-2''\<rparr>) Ready]
      (handle_init :: (byte list, string) handle_state) =
     (Returned (Some (UnableToUnmarshal ''YQ=='')),
      handle_init\<lparr>unmarshalled := [[97]],
        hlog := [UnableToHandle (UnableToUnmarshal ''YQ=='')]\<rparr>) \<and>
   Close [Returned (Some (UnableToUnmarshal ''YQ=='')), Returned (Some Canceled),
      Returned (Some (Canceled :: string error))] = Some (Some (UnableToUnmarshal ''YQ=='')) \<and>
   handleLoop (\<lambda>d. Inr d) (\<lambda>h e. if h = [] then Some ''boom'' else None)
      [HRecv (Some \<lparr>Body = Some ''YQ=='', ReceiptHandle = Some ''rh-1''\<rparr>) Ready,
       HRecv (Some \<lparr>Body = Some ''Yg=='', ReceiptHandle = Some ''rh-2''\<rparr>) Ready]
      (handle_init :: (byte list, string) handle_state) =
     (Returned (Some (HandlerError ''boom'')),
      handle_init\<lparr>unmarshalled := [[97]], dispatched := [[97]],
        hlog := [UnableToHandle (HandlerError ''boom'')]\<rparr>)"
proof -
  have d: "DecodeString ''YQ=='' = Some [97]"
    by (simp add: DecodeString_def decodeMap_def quantum_def)
  have b: "Body \<lparr>Body = Some ''YQ=='', ReceiptHandle = Some ''rh-1''\<rparr> = Some ''YQ==''"
    by simp
  let ?ts = "[HRecv (Some \<lparr>Body = Some ''YQ=='', ReceiptHandle = Some ''rh-1''\<rparr>) Ready,
       HRecv (Some \<lparr>Body = Some ''Yg=='', ReceiptHandle = Some ''rh-2''\<rparr>) Ready]"
  note h = handle_escalation
      [of "\<lparr>Body = Some ''YQ=='', ReceiptHandle = Some ''rh-1''\<rparr>" "''YQ==''" "[97]"
          "\<lambda>d. Inl ''schema''" "\<lambda>h e. None" Ready
          "[HRecv (Some \<lparr>Body = Some ''Yg=='', ReceiptHandle = Some ''rh-2''\<rparr>) Ready]"
          "handle_init :: (byte list, string) handle_state" ?ts handle_init]
  from h b d have run: "handleLoop (\<lambda>d. Inl ''schema'') (\<lambda>h e. None) ?ts
      (handle_init :: (byte list, string) handle_state) =
     (Returned (Some (UnableToUnmarshal ''YQ=='')),
      handle_init\<lparr>unmarshalled := [[97]],
        hlog := [UnableToHandle (UnableToUnmarshal ''YQ=='')]\<rparr>)"
    by (simp add: handle_init_def)
  then have "fst (handleLoop (\<lambda>d. Inl ''schema'') (\<lambda>h e. None) ?ts
      (handle_init :: (byte list, string) handle_state)) = Returned (Some (UnableToUnmarshal ''YQ==''))"
    by simp
  with h have "\<forall>rest. (\<forall>st \<in> set rest. \<exists>r'. st = Returned r') \<longrightarrow>
      Close (Returned (Some (UnableToUnmarshal ''YQ=='')) # rest) =
        Some (Some (UnableToUnmarshal ''YQ=='' :: string error))"
    by blast
  then have c: "Close [Returned (Some (UnableToUnmarshal ''YQ=='')), Returned (Some Canceled),
      Returned (Some (Canceled :: string error))] = Some (Some (UnableToUnmarshal ''YQ==''))"
    by simp
  note h2 = handle_escalation
      [of "\<lparr>Body = Some ''YQ=='', ReceiptHandle = Some ''rh-1''\<rparr>" "''YQ==''" "[97]"
          "\<lambda>d. Inr d" "\<lambda>h e. if h = [] then Some ''boom'' else None" Ready
          "[HRecv (Some \<lparr>Body = Some ''Yg=='', ReceiptHandle = Some ''rh-2''\<rparr>) Ready]"
          "handle_init :: (byte list, string) handle_state" ?ts handle_init]
  from h2 b d have run2: "handleLoop (\<lambda>d. Inr d) (\<lambda>h e. if h = [] then Some ''boom'' else None) ?ts
      (handle_init :: (byte list, string) handle_state) =
     (Returned (Some (HandlerError ''boom'')),
      handle_init\<lparr>unmarshalled := [[97]], dispatched := [[97]],
        hlog := [UnableToHandle (HandlerError ''boom'')]\<rparr>)"
    by (simp add: handle_init_def)
  from run c run2 show ?thesis by simp
qed













text \<open>
  C8. receiveLoop never returns nil: whenever it returns, the result is the
  cancellation error. A failed receive is never returned: after the 15 second pause
  the loop polls again, however many receives fail in a row. Cancellation taken in
  that pause, at a send on the received channel or at the end of an iteration makes
  the loop return the cancellation error.
\<close>

theorem receive_never_succeeds:
  "(\<forall>r. fst (receiveLoop polls s) = Returned r \<longrightarrow> r = Some Canceled) \<and>
   receiveLoop (replicate n (ReceiveError Ready) @ rest) s =
     receiveLoop rest (s\<lparr>rwaits := rwaits s @ replicate n 15\<rparr>) \<and>
   receiveLoop (ReceiveError Cancelled # rest) s = (Returned (Some Canceled), s) \<and>
   receiveLoop (ReceiveOutput [] cs True # rest) s = (Returned (Some Canceled), s) \<and>
   receiveLoop (ReceiveOutput (m # ms) (Cancelled # cs) done # rest) s =
     (Returned (Some Canceled), s\<lparr>rlog := rlog s @ [ReceivedMessages (Suc (length ms))]\<rparr>)"
  using receiveLoop_returns receiveLoop_retries by (auto simp: Let_def)


theorem receive_never_succeeds_witness:
  "receiveLoop
      [ReceiveError Ready, ReceiveError Ready,
       ReceiveOutput [Some \<lparr>Body = Some ''YQ=='', ReceiptHandle = Some ''rh-1''\<rparr>] [Ready] False,
       ReceiveError Cancelled]
      (receive_init :: string receive_state) =
     (Returned (Some Canceled),
      receive_init\<lparr>rwaits := [15, 15], rlog := [ReceivedMessages 1],
        received := [Some \<lparr>Body = Some ''YQ=='', ReceiptHandle = Some ''rh-1''\<rparr>]\<rparr>)"
proof -
  let ?rest = "[ReceiveOutput [Some \<lparr>Body = Some ''YQ=='', ReceiptHandle = Some ''rh-1''\<rparr>] [Ready] False,
       ReceiveError Cancelled]"
  let ?polls = "[ReceiveError Ready, ReceiveError Ready] @ ?rest"
  note t = receive_never_succeeds [of ?polls "receive_init :: string receive_state" 2 ?rest]
  from t have a: "receiveLoop ?polls (receive_init :: string receive_state) =
      receiveLoop ?rest (receive_init\<lparr>rwaits := [15, 15]\<rparr>)"
    by (simp add: receive_init_def numeral_2_eq_2)
  have "receiveLoop ?rest ((receive_init :: string receive_state)\<lparr>rwaits := [15, 15]\<rparr>) =
     (Returned (Some Canceled),
      receive_init\<lparr>rwaits := [15, 15], rlog := [ReceivedMessages 1],
        received := [Some \<lparr>Body = Some ''YQ=='', ReceiptHandle = Some ''rh-1''\<rparr>]\<rparr>)"
    by (simp add: receive_init_def)
  with a show ?thesis by simp
qed

text \<open>
  What Replay does with the lines its scans yield. It does exactly what going through
  the flat archive item by item does: it gives the handler every decoded event in
  object-list order and, within an object, in line order, one after the other. A
  result reached within \<open>n\<close> pages is the result for every larger bound. When all
  items of the archive are lines that decode and deserialize and the handler accepts
  each event, Replay returns nil and has dispatched exactly these events in that order.
  When the items before some item are such and that item fails (the listing, the
  \<^verbatim>\<open>GetObject\<close> call, the base64 decoding, the deserialization, or the handler on its
  event), Replay returns a non-nil error, and what it has dispatched is the events
  before that item and, for a handler failure, the event the handler refused: nothing
  that comes after in the archive.
\<close>

lemma replay_in_archive_order:
  "Replay n ListObjectsV2 GetObject unmarshal fn bucket prefix token evs =
     dispatchItems unmarshal fn (archiveItems n ListObjectsV2 GetObject bucket prefix token) evs \<and>
   (\<forall>r evs1. Replay n ListObjectsV2 GetObject unmarshal fn bucket prefix token evs = (Some r, evs1) \<longrightarrow>
      Replay (n + k) ListObjectsV2 GetObject unmarshal fn bucket prefix token evs = (Some r, evs1)) \<and>
   (list_all2 (\<lambda>it ev. decoded unmarshal it = Some ev) good events \<and>
    (\<forall>i < length events. fn (evs @ take i events) (events ! i) = None) \<longrightarrow>
      (archiveItems n ListObjectsV2 GetObject bucket prefix token = good \<longrightarrow>
         Replay n ListObjectsV2 GetObject unmarshal fn bucket prefix token evs =
           (Some None, evs @ events)) \<and>
      (\<forall>bad rest.
         archiveItems n ListObjectsV2 GetObject bucket prefix token = good @ bad # rest \<and>
         bad \<noteq> Unlisted \<and>
         (decoded unmarshal bad = None \<or>
          (\<exists>ev. decoded unmarshal bad = Some ev \<and> fn (evs @ events) ev \<noteq> None)) \<longrightarrow>
           (\<exists>err. fst (Replay n ListObjectsV2 GetObject unmarshal fn bucket prefix token evs) =
              Some (Some err)) \<and>
           snd (Replay n ListObjectsV2 GetObject unmarshal fn bucket prefix token evs) =
             evs @ events @ (case decoded unmarshal bad of Some ev \<Rightarrow> [ev] | None \<Rightarrow> [])))"
proof (intro conjI allI impI)
  show "Replay n ListObjectsV2 GetObject unmarshal fn bucket prefix token evs =
     dispatchItems unmarshal fn (archiveItems n ListObjectsV2 GetObject bucket prefix token) evs"
    by (rule Replay_dispatch)
next
  fix r evs1
  assume "Replay n ListObjectsV2 GetObject unmarshal fn bucket prefix token evs = (Some r, evs1)"
  then show "Replay (n + k) ListObjectsV2 GetObject unmarshal fn bucket prefix token evs = (Some r, evs1)"
    by (rule Replay_fuel)
next
  assume g: "list_all2 (\<lambda>it ev. decoded unmarshal it = Some ev) good events \<and>
    (\<forall>i < length events. fn (evs @ take i events) (events ! i) = None)"
    and a: "archiveItems n ListObjectsV2 GetObject bucket prefix token = good"
  from g have "dispatchItems unmarshal fn (good @ []) evs = dispatchItems unmarshal fn [] (evs @ events)"
    by (intro dispatch_good) simp_all
  with a show "Replay n ListObjectsV2 GetObject unmarshal fn bucket prefix token evs =
           (Some None, evs @ events)"
    by (simp add: Replay_dispatch)
next
  fix bad rest
  assume g: "list_all2 (\<lambda>it ev. decoded unmarshal it = Some ev) good events \<and>
    (\<forall>i < length events. fn (evs @ take i events) (events ! i) = None)"
    and b: "archiveItems n ListObjectsV2 GetObject bucket prefix token = good @ bad # rest \<and>
         bad \<noteq> Unlisted \<and>
         (decoded unmarshal bad = None \<or>
          (\<exists>ev. decoded unmarshal bad = Some ev \<and> fn (evs @ events) ev \<noteq> None))"
  from g have d: "dispatchItems unmarshal fn (good @ bad # rest) evs =
      dispatchItems unmarshal fn (bad # rest) (evs @ events)"
    by (intro dispatch_good) simp_all
  from b have
    "(\<exists>err. fst (dispatchItems unmarshal fn (bad # rest) (evs @ events)) = Some (Some err)) \<and>
     snd (dispatchItems unmarshal fn (bad # rest) (evs @ events)) =
       (evs @ events) @ (case decoded unmarshal bad of Some ev \<Rightarrow> [ev] | None \<Rightarrow> [])"
    by (intro dispatch_bad) simp_all
  with b d show
    "\<exists>err. fst (Replay n ListObjectsV2 GetObject unmarshal fn bucket prefix token evs) =
              Some (Some err)"
    and "snd (Replay n ListObjectsV2 GetObject unmarshal fn bucket prefix token evs) =
             evs @ events @ (case decoded unmarshal bad of Some ev \<Rightarrow> [ev] | None \<Rightarrow> [])"
    by (simp_all add: Replay_dispatch)
qed


lemma replay_in_archive_order_example:
  "Replay 2 (\<lambda>b p tok. if tok = None then Inr ([''a''], Some ''t'') else Inr ([''b''], None))
      (\<lambda>b key. Inr ([''YQ=='', ''Yg==''], None)) (\<lambda>d. Inr d) (\<lambda>h e. None)
      ''bucket'' ''prefix/'' None [] =
     (Some (None :: string replay_error option), [[97], [98], [97], [98 :: byte]]) \<and>
   snd (Replay 2 (\<lambda>b p tok. if tok = None then Inr ([''a''], Some ''t'') else Inr ([''b''], None))
      (\<lambda>b key. Inr ([''YQ=='', ''Yg==''], None)) (\<lambda>d. Inr d)
      (\<lambda>h e. if length h = 2 then Some ''boom'' else None)
      ''bucket'' ''prefix/'' None []) = [[97], [98], [97 :: byte]]"
proof -
  let ?L = "\<lambda>(b :: string) (p :: string) tok.
      if tok = None then Inr ([''a''], Some ''t'') else (Inr ([''b''], None) :: string + _)"
  let ?G = "\<lambda>(b :: string) (key :: string). (Inr ([''YQ=='', ''Yg==''], None) :: string + _)"
  let ?U = "\<lambda>d :: byte list. (Inr d :: string + _)"
  let ?e = "[[97], [98], [97], [98 :: byte]]"
  have dA: "DecodeString ''YQ=='' = Some [97]"
    by (simp add: DecodeString_def decodeMap_def quantum_def)
  have dB: "DecodeString ''Yg=='' = Some [98]"
    by (simp add: DecodeString_def decodeMap_def quantum_def)
  let ?g1 = "[Line ''a'' 1 ''YQ=='', Line ''a'' 2 ''Yg=='', Line ''b'' 1 ''YQ=='', Line ''b'' 2 ''Yg=='']"
  let ?g2 = "[Line ''a'' 1 ''YQ=='', Line ''a'' 2 ''Yg=='']"
  let ?F = "\<lambda>(h :: byte list list) (e :: byte list). if length h = 2 then Some ''boom'' else None"
  have items1: "archiveItems 2 ?L ?G ''bucket'' ''prefix/'' None = ?g1"
    by (simp add: numeral_2_eq_2 objectItems_def)
  have items2: "archiveItems 2 ?L ?G ''bucket'' ''prefix/'' None =
      ?g2 @ Line ''b'' 1 ''YQ=='' # [Line ''b'' 2 ''Yg=='']"
    by (simp add: numeral_2_eq_2 objectItems_def)
  have good: "list_all2 (\<lambda>it ev. decoded ?U it = Some ev) ?g1 ?e"
    by (simp add: dA dB)
  have ok: "\<forall>i < length ?e. (\<lambda>h e. None :: string option) ([] @ take i ?e) (?e ! i) = None"
    by simp
  note t1 = replay_in_archive_order
      [of 2 ?L ?G ?U "\<lambda>h e. None" "''bucket''" "''prefix/''" None "[]" 0 ?g1 ?e]
  have "Replay 2 ?L ?G ?U (\<lambda>h e. None) ''bucket'' ''prefix/'' None [] = (Some None, [] @ ?e)"
    by (rule t1 [THEN conjunct2, THEN conjunct2, THEN mp, OF conjI [OF good ok],
          THEN conjunct1, THEN mp, OF items1])
  then have one: "Replay 2 ?L ?G ?U (\<lambda>h e. None) ''bucket'' ''prefix/'' None [] = (Some None, ?e)"
    by simp
  have good2: "list_all2 (\<lambda>it ev. decoded ?U it = Some ev) ?g2 [[97], [98]]"
    by (simp add: dA dB)
  have ok2: "\<forall>i < length [[97], [98 :: byte]]. ?F ([] @ take i [[97], [98]]) ([[97], [98]] ! i) = None"
    by simp
  have bad: "Line ''b'' 1 ''YQ=='' \<noteq> (Unlisted :: string item) \<and>
      (decoded ?U (Line ''b'' 1 ''YQ=='') = None \<or>
       (\<exists>ev. decoded ?U (Line ''b'' 1 ''YQ=='') = Some ev \<and> ?F ([] @ [[97], [98]]) ev \<noteq> None))"
    by (simp add: dA)
  note t2 = replay_in_archive_order
      [of 2 ?L ?G ?U ?F "''bucket''" "''prefix/''" None "[]" 0 ?g2 "[[97], [98]]"]
  have "snd (Replay 2 ?L ?G ?U ?F ''bucket'' ''prefix/'' None []) =
      [] @ [[97], [98]] @ (case decoded ?U (Line ''b'' 1 ''YQ=='') of Some ev \<Rightarrow> [ev] | None \<Rightarrow> [])"
    by (rule t2 [THEN conjunct2, THEN conjunct2, THEN mp, OF conjI [OF good2 ok2],
          THEN conjunct2, THEN spec, THEN spec, THEN mp, OF conjI [OF items2 bad],
          THEN conjunct2])
  then have two: "snd (Replay 2 ?L ?G ?U ?F ''bucket'' ''prefix/'' None []) = [[97], [98], [97]]"
    by (simp add: dA)
  from one two show ?thesis by simp
qed

text \<open>
  C9 says that Replay aborts with a non-nil error on the first read failure and
  dispatches nothing after it. handleObject returns the error of the \<^verbatim>\<open>GetObject\<close> call,
  but a read that fails while the body is scanned only makes \<^verbatim>\<open>s.Scan()\<close> return
  false, and the loop ends as it does at the end of the body. Here the listing has the
  objects \<^verbatim>\<open>a\<close> and \<^verbatim>\<open>b\<close>; the scan of \<^verbatim>\<open>a\<close> yields one line and then fails. Replay
  goes on to \<^verbatim>\<open>b\<close>, dispatches its event and returns nil.
\<close>

theorem replay_ignores_scan_error:
  "Replay 1 (\<lambda>b p tok. Inr ([''a'', ''b''], None))
      (\<lambda>b key. if key = ''a'' then Inr ([''YQ==''], Some ''connection reset'')
                 else Inr ([''Yg==''], None))
      (\<lambda>d. Inr d) (\<lambda>h e. None) ''bucket'' ''prefix/'' None [] =
     (Some (None :: string replay_error option), [[97], [98 :: byte]])"
  by (simp add: handleObject_def DecodeString_def decodeMap_def quantum_def)

text \<open>
  C10 says that handleLoop forwards every message that is nil or has a nil body to the
  completed channel. The send stands in a \<^verbatim>\<open>select\<close> with \<^verbatim>\<open><-ctx.Done()\<close>: when that
  case is taken for a message with a nil body, the message is not sent on and
  handleLoop returns the cancellation error.
\<close>

theorem nil_message_is_forwarded_counterexample:
  "handleLoop (\<lambda>d. Inr d) (\<lambda>h e. None)
      [HRecv (Some \<lparr>Body = None, ReceiptHandle = Some ''rh-1''\<rparr>) Cancelled]
      (handle_init :: (byte list, string) handle_state) =
     (Returned (Some Canceled), handle_init) \<and>
   completed (handle_init :: (byte list, string) handle_state) = []"
  by (simp add: handleMessage_def handle_init_def)

text \<open>
  C10, amended. A message that is nil, or whose body is nil, is treated as handled:
  handleMessage returns nil and calls neither the serializer nor the handler (it prints
  nothing either). handleLoop then sends that very message on the completed channel
  and goes on with the next turn when the send is the case its \<^verbatim>\<open>select\<close> takes; when
  the cancellation is taken there instead, it returns the cancellation error and the
  message is not sent on.
\<close>

theorem nil_message_is_forwarded:
  "(m = None \<or> (\<exists>msg. m = Some msg \<and> Body msg = None)) \<longrightarrow>
     handleMessage unmarshal fn m s = (None, s) \<and>
     handleLoop unmarshal fn (HRecv m Ready # turns) s =
       handleLoop unmarshal fn turns (s\<lparr>completed := completed s @ [m]\<rparr>) \<and>
     handleLoop unmarshal fn (HRecv m Cancelled # turns) s = (Returned (Some Canceled), s)"
  by (auto simp: handleMessage_def)

theorem nil_message_is_forwarded_witness:
  "handleMessage (\<lambda>d. Inr d) (\<lambda>h e. Some ''boom'')
      (Some \<lparr>Body = None, ReceiptHandle = Some ''rh-1''\<rparr>) handle_init = (None, handle_init) \<and>
   handleLoop (\<lambda>d. Inr d) (\<lambda>h e. Some ''boom'')
      [HRecv (Some \<lparr>Body = None, ReceiptHandle = Some ''rh-1''\<rparr>) Ready, HRecv None Cancelled]
      handle_init =
     (Returned (Some Canceled), handle_init\<lparr>completed :=
        [Some \<lparr>Body = None, ReceiptHandle = Some ''rh-1''\<rparr>]\<rparr>)"
  using nil_message_is_forwarded
    [of "Some \<lparr>Body = None, ReceiptHandle = Some ''rh-1''\<rparr>" "\<lambda>d. Inr d" "\<lambda>h e. Some ''boom''"
        handle_init "[HRecv None Cancelled]"]
    nil_message_is_forwarded
    [of None "\<lambda>d. Inr d" "\<lambda>h e. Some ''boom''"
        "handle_init\<lparr>completed := [Some \<lparr>Body = None, ReceiptHandle = Some ''rh-1''\<rparr>]\<rparr>" "[]"]
  by (simp add: handle_init_def)

end
